theory Spec2Isabelle
  imports Complex_Main "HOL-Library.Word"
begin

section \<open>Python values\<close>

text \<open>
  A Python \<open>str\<close> is a sequence of Unicode code points and \<open>len\<close> counts code points, so a
  string is modelled as the list of its code points. The messages of \<open>bot.py\<close> are Persian;
  they are written out below as code-point lists. A \<open>bytes\<close> value is a list of octets.
\<close>

type_synonym pystr = "nat list"

type_synonym bytes = "8 word list"

definition ascii :: "string \<Rightarrow> pystr" where
  "ascii s = map of_char s"

text \<open>
  Slicing \<open>xs[i:j]\<close> with integer bounds: a negative bound counts from the end, every bound
  is clamped to \<open>0 .. len(xs)\<close>, and the slice is empty when the upper bound does not exceed
  the lower one.
\<close>

definition slice_index :: "nat \<Rightarrow> int \<Rightarrow> nat" where
  "slice_index n i = (if i < 0 then nat (max 0 (i + int n)) else min (nat i) n)"

definition py_slice :: "'a list \<Rightarrow> int \<Rightarrow> int \<Rightarrow> 'a list" where
  "py_slice xs i j =
     (let lo = slice_index (length xs) i; hi = slice_index (length xs) j
      in take (hi - lo) (drop lo xs))"

text \<open>\<open>str.isspace\<close> on one code point: the characters that \<open>str.strip()\<close> removes.\<close>

definition py_isspace :: "nat \<Rightarrow> bool" where
  "py_isspace c \<longleftrightarrow>
     (9 \<le> c \<and> c \<le> 13) \<or> (28 \<le> c \<and> c \<le> 32) \<or> c = 133 \<or> c = 160 \<or> c = 5760 \<or>
     (8192 \<le> c \<and> c \<le> 8202) \<or> c = 8232 \<or> c = 8233 \<or> c = 8239 \<or> c = 8287 \<or> c = 12288"

definition py_strip :: "pystr \<Rightarrow> pystr" where
  "py_strip s = rev (dropWhile py_isspace (rev (dropWhile py_isspace s)))"

text \<open>\<open>sep.join(parts)\<close>.\<close>

fun py_join :: "pystr \<Rightarrow> pystr list \<Rightarrow> pystr" where
  "py_join sep [] = []"
| "py_join sep [x] = x"
| "py_join sep (x # y # ys) = x @ sep @ py_join sep (y # ys)"

text \<open>
  An exception carries its class name and \<open>str(e)\<close>. \<open>Exception\<close> stands for the instances of
  Python's \<open>Exception\<close>, which \<open>except Exception\<close> catches; \<open>BaseException\<close> for the others
  (a cancelled task, a keyboard interrupt), which it lets through.
\<close>

datatype exn = Exception string pystr | BaseException string pystr

fun str_exn :: "exn \<Rightarrow> pystr" where
  "str_exn (Exception cls msg) = msg"
| "str_exn (BaseException cls msg) = msg"

text \<open>What an external call answers: it raises (\<open>Inl\<close>) or returns (\<open>Inr\<close>).\<close>

type_synonym 'a answer = "exn + 'a"

section \<open>The string literals of \<open>bot.py\<close>\<close>

definition MSG_NO_API_KEY :: pystr where
  "MSG_NO_API_KEY =
     [1582, 1591, 1575, 58, 32, 1705, 1604, 1740, 1583, 32, 79, 80, 69, 78, 65, 73, 95, 65, 80,
      73, 95, 75, 69, 89, 32, 1578, 1606, 1592, 1740, 1605, 32, 1606, 1588, 1583, 1607, 32, 1575,
      1587, 1578, 46]"

definition CHUNK_SYSTEM_PROMPT :: pystr where
  "CHUNK_SYSTEM_PROMPT =
     [1578, 1608, 32, 1740, 1705, 32, 1582, 1604, 1575, 1589, 1607, 8204, 1587, 1575, 1586, 32,
      1583, 1602, 1740, 1602, 32, 1608, 32, 1605, 1606, 1592, 1605, 32, 1607, 1587, 1578, 1740,
      46]"

definition CHUNK_USER_PREFIX :: pystr where
  "CHUNK_USER_PREFIX =
     [1575, 1740, 1606, 32, 1576, 1582, 1588, 32, 1575, 1586, 32, 1605, 1578, 1606, 32, 1585,
      1575, 32, 1582, 1604, 1575, 1589, 1607, 32, 1705, 1606, 58, 10, 10]"

definition SEPARATOR :: pystr where
  "SEPARATOR = [10, 10, 45, 45, 45, 10, 10]"

definition FINAL_SYSTEM_PROMPT :: pystr where
  "FINAL_SYSTEM_PROMPT =
     [1582, 1604, 1575, 1589, 1607, 8204, 1740, 32, 1606, 1607, 1575, 1740, 1740, 32, 1608, 32,
      1605, 1606, 1587, 1580, 1605, 32, 1576, 1575, 32, 1578, 1740, 1578, 1585, 1607, 1575, 1740,
      32, 1705, 1608, 1578, 1575, 1607, 32, 1578, 1608, 1604, 1740, 1583, 32, 1705, 1606, 46]"

definition FINAL_USER_PREFIX :: pystr where
  "FINAL_USER_PREFIX =
     [1575, 1740, 1606, 32, 1582, 1604, 1575, 1589, 1607, 8204, 1607, 1575, 1740, 32, 1576, 1582,
      1588, 8204, 1576, 1606, 1583, 1740, 8204, 1588, 1583, 1607, 32, 1585, 1575, 32, 1576, 1607,
      32, 1740, 1705, 32, 1582, 1604, 1575, 1589, 1607, 8204, 1740, 32, 1606, 1607, 1575, 1740,
      1740, 32, 1578, 1576, 1583, 1740, 1604, 32, 1705, 1606, 58, 10, 10]"

definition MSG_ONLY_PDF :: pystr where
  "MSG_ONLY_PDF =
     [1604, 1591, 1601, 1575, 1611, 32, 1601, 1602, 1591, 32, 1601, 1575, 1740, 1604, 32, 80, 68,
      70, 32, 1575, 1585, 1587, 1575, 1604, 32, 1705, 1606, 46]"

definition MSG_PROCESSING :: pystr where
  "MSG_PROCESSING =
     [1601, 1575, 1740, 1604, 32, 1583, 1585, 1740, 1575, 1601, 1578, 32, 1588, 1583, 46, 32,
      1583, 1585, 32, 1581, 1575, 1604, 32, 1662, 1585, 1583, 1575, 1586, 1588, 46, 46, 46]"

definition MSG_NO_TEXT :: pystr where
  "MSG_NO_TEXT =
     [1605, 1578, 1606, 32, 1602, 1575, 1576, 1604, 32, 1575, 1587, 1578, 1582, 1585, 1575, 1580,
      32, 1662, 1740, 1583, 1575, 32, 1606, 1588, 1583, 46]"

definition ERROR_PREFIX :: pystr where
  "ERROR_PREFIX = [1582, 1591, 1575, 58, 32]"

section \<open>The Chunker: \<open>chunk_text\<close>\<close>

text \<open>
  \<^verbatim>\<open>
  def chunk_text(text: str, max_chars: int = 10_000) -> List[str]:
      chunks = []
      start = 0
      while start < len(text):
          end = min(start + max_chars, len(text))
          chunks.append(text[start:end])
          start = end
      return chunks
  \<close>
  \<open>max_chars\<close> is a Python integer, so it may be zero or negative. The loop state is the pair
  \<open>(start, chunks)\<close>; \<open>chunk_step\<close> is one run of the loop body. Nothing bounds the number of
  iterations, so the loop is a partial function: \<open>None\<close> is the loop that never returns.
\<close>

definition chunk_step :: "pystr \<Rightarrow> int \<Rightarrow> int \<times> pystr list \<Rightarrow> int \<times> pystr list" where
  "chunk_step text max_chars = (\<lambda>(start, chunks).
     let end' = min (start + max_chars) (int (length text))
     in (end', chunks @ [py_slice text start end']))"

partial_function (option)
  chunk_loop :: "pystr \<Rightarrow> int \<Rightarrow> int \<times> pystr list \<Rightarrow> pystr list option" where
  "chunk_loop text max_chars st =
     (if fst st < int (length text) then chunk_loop text max_chars (chunk_step text max_chars st)
      else Some (snd st))"

declare chunk_loop.simps [code]

definition chunk_text :: "pystr \<Rightarrow> int \<Rightarrow> pystr list option" where
  "chunk_text text max_chars = chunk_loop text max_chars (0, [])"

text \<open>
  Auxiliary to the proofs, not part of the program: the list of consecutive blocks of \<open>n\<close>
  elements of \<open>xs\<close>, the last one holding the rest. The loop is shown to compute it.
\<close>

fun blocks :: "nat \<Rightarrow> 'a list \<Rightarrow> 'a list list" where
  "blocks n xs = (if n = 0 \<or> xs = [] then [] else take n xs # blocks n (drop n xs))"

declare blocks.simps [simp del]

section \<open>External calls, their log, and outcomes\<close>

text \<open>
  The request sent to \<open>client.chat.completions.create\<close>, and what the code reads of the
  response: \<open>resp.choices[i].message.content\<close> for each choice, \<open>None\<close> when there is no text.
  The sampling temperature is kept as the decimal literal the source writes, \<open>0.3\<close>.
\<close>

record chat_message =
  role :: pystr
  content :: pystr

record request =
  model :: pystr
  messages :: "chat_message list"
  temperature :: rat

type_synonym response = "pystr option list"

text \<open>\<open>Path(tmpdir) / name\<close>, kept unevaluated.\<close>

datatype path = PathJoin pystr pystr

text \<open>
  The response of \<open>requests.get(..., stream=True)\<close>: what \<open>raise_for_status()\<close> raises, if
  anything; the chunks \<open>iter_content\<close> yields; and what the iterator raises after them, if
  anything.
\<close>

record http_response =
  status_error :: "exn option"
  iter_content :: "bytes list"
  stream_error :: "exn option"

record document =
  file_id :: pystr
  mime_type :: "pystr option"
  file_name :: "pystr option"

record message =
  document :: "document option"

text \<open>
  Of an update the handler reads only \<open>update.message\<close>. It is \<open>None\<close> when the update is not a
  new message (an edited message, a channel post).
\<close>

record update =
  message :: "message option"

text \<open>Every call that leaves the process is logged with what it answered.\<close>

datatype event =
    Reply pystr "unit answer"
  | GetFile pystr "pystr option answer"
  | MkTemp "pystr answer"
  | Cleanup pystr "unit answer"
  | HttpGet "pystr option" "http_response answer"
  | HttpClose "unit answer"
  | FileOpen path "unit answer"
  | FileWrite path bytes "unit answer"
  | FileClose path "unit answer"
  | Extract path "pystr answer"
  | Complete request "response answer"

text \<open>
  The environment of a request: the credential read at import time and the external
  services. Each service reads and changes a world \<open>'w\<close> the program cannot see, so its
  answer may depend on everything that happened before.
\<close>

record 'w env =
  OPENAI_API_KEY :: "pystr option"
  chat_completions_create :: "pystr \<Rightarrow> request \<Rightarrow> 'w \<Rightarrow> response answer \<times> 'w"
  reply_text :: "pystr \<Rightarrow> 'w \<Rightarrow> unit answer \<times> 'w"
  get_file :: "pystr \<Rightarrow> 'w \<Rightarrow> pystr option answer \<times> 'w"
  TemporaryDirectory :: "'w \<Rightarrow> pystr answer \<times> 'w"
  cleanup :: "pystr \<Rightarrow> 'w \<Rightarrow> unit answer \<times> 'w"
  requests_get :: "pystr option \<Rightarrow> 'w \<Rightarrow> http_response answer \<times> 'w"
  response_close :: "'w \<Rightarrow> unit answer \<times> 'w"
  open_wb :: "path \<Rightarrow> 'w \<Rightarrow> unit answer \<times> 'w"
  file_write :: "path \<Rightarrow> bytes \<Rightarrow> 'w \<Rightarrow> unit answer \<times> 'w"
  file_close :: "path \<Rightarrow> 'w \<Rightarrow> unit answer \<times> 'w"
  extract_text :: "path \<Rightarrow> 'w \<Rightarrow> pystr answer \<times> 'w"

text \<open>
  A piece of the program run in a world returns a value, raises, or (only where it waits for
  a loop that never ends) does not return; with it come the calls it made, in order, and the
  world it leaves.
\<close>

datatype 'a outcome = Return 'a | Raise exn | Diverge

type_synonym ('w, 'a) io = "'w \<Rightarrow> 'a outcome \<times> event list \<times> 'w"

definition outcome_of :: "'a outcome \<times> event list \<times> 'w \<Rightarrow> 'a outcome" where
  "outcome_of r = fst r"

definition events_of :: "'a outcome \<times> event list \<times> 'w \<Rightarrow> event list" where
  "events_of r = fst (snd r)"

definition ret :: "'a \<Rightarrow> ('w, 'a) io" where
  "ret x = (\<lambda>w. (Return x, [], w))"

definition raise :: "exn \<Rightarrow> ('w, 'a) io" where
  "raise e = (\<lambda>w. (Raise e, [], w))"

definition diverge :: "('w, 'a) io" where
  "diverge = (\<lambda>w. (Diverge, [], w))"

definition lift :: "'a answer \<Rightarrow> ('w, 'a) io" where
  "lift r = (case r of Inl e \<Rightarrow> raise e | Inr x \<Rightarrow> ret x)"

definition bind :: "('w, 'a) io \<Rightarrow> ('a \<Rightarrow> ('w, 'b) io) \<Rightarrow> ('w, 'b) io" where
  "bind m f = (\<lambda>w.
     case m w of
       (Return x, evs, w') \<Rightarrow> (case f x w' of (r, evs', w'') \<Rightarrow> (r, evs @ evs', w''))
     | (Raise e, evs, w') \<Rightarrow> (Raise e, evs, w')
     | (Diverge, evs, w') \<Rightarrow> (Diverge, evs, w'))"

text \<open>One external call: it is logged with its answer, and a raised exception propagates.\<close>

definition call :: "('w \<Rightarrow> 'a answer \<times> 'w) \<Rightarrow> ('a answer \<Rightarrow> event) \<Rightarrow> ('w, 'a) io" where
  "call f ev = (\<lambda>w.
     case f w of (r, w') \<Rightarrow> ((case r of Inl e \<Rightarrow> Raise e | Inr x \<Rightarrow> Return x), [ev r], w'))"

text \<open>\<open>try: body  except Exception as e: handler(e)\<close>.\<close>

definition try_except :: "('w, 'a) io \<Rightarrow> (exn \<Rightarrow> ('w, 'a) io) \<Rightarrow> ('w, 'a) io" where
  "try_except body handler = (\<lambda>w.
     case body w of
       (Raise (Exception cls msg), evs, w') \<Rightarrow>
         (case handler (Exception cls msg) w' of (r, evs', w'') \<Rightarrow> (r, evs @ evs', w''))
     | (r, evs, w') \<Rightarrow> (r, evs, w'))"

text \<open>
  Leaving a \<open>with\<close> block: the exit action runs whether the body returned or raised, and an
  exception of the exit action replaces the body's outcome.
\<close>

definition ensure :: "('w, 'a) io \<Rightarrow> ('w, unit) io \<Rightarrow> ('w, 'a) io" where
  "ensure body exit = (\<lambda>w.
     case body w of
       (Diverge, evs, w') \<Rightarrow> (Diverge, evs, w')
     | (r, evs, w') \<Rightarrow>
         (case exit w' of
            (Return u, evs', w'') \<Rightarrow> (r, evs @ evs', w'')
          | (Raise e, evs', w'') \<Rightarrow> (Raise e, evs @ evs', w'')
          | (Diverge, evs', w'') \<Rightarrow> (Diverge, evs @ evs', w'')))"

section \<open>The Reducer: \<open>summarize_text\<close>\<close>

text \<open>
  \<^verbatim>\<open>
  client = OpenAI(api_key=OPENAI_API_KEY) if OPENAI_API_KEY else None
  \<close>
  The credential is missing when the variable is unset or empty.
\<close>

definition client :: "'w env \<Rightarrow> (request \<Rightarrow> 'w \<Rightarrow> response answer \<times> 'w) option" where
  "client env =
     (case OPENAI_API_KEY env of
        None \<Rightarrow> None
      | Some key \<Rightarrow> if key = [] then None else Some (chat_completions_create env key))"

definition complete ::
  "(request \<Rightarrow> 'w \<Rightarrow> response answer \<times> 'w) \<Rightarrow> request \<Rightarrow> ('w, response) io" where
  "complete create req = call (create req) (Complete req)"

definition chunk_request :: "pystr \<Rightarrow> request" where
  "chunk_request ch =
     \<lparr>model = ascii ''gpt-4o-mini'',
      messages =
        [\<lparr>role = ascii ''system'', content = CHUNK_SYSTEM_PROMPT\<rparr>,
         \<lparr>role = ascii ''user'', content = CHUNK_USER_PREFIX @ ch\<rparr>],
      temperature = 3 / 10\<rparr>"

definition final_request :: "pystr \<Rightarrow> request" where
  "final_request final_input =
     \<lparr>model = ascii ''gpt-4o-mini'',
      messages =
        [\<lparr>role = ascii ''system'', content = FINAL_SYSTEM_PROMPT\<rparr>,
         \<lparr>role = ascii ''user'', content = FINAL_USER_PREFIX @ final_input\<rparr>],
      temperature = 3 / 10\<rparr>"

text \<open>
  \<open>resp.choices[0].message.content.strip()\<close>: an \<open>IndexError\<close> when there is no choice, an
  \<open>AttributeError\<close> when the content is \<open>None\<close>.
\<close>

definition no_attribute :: "pystr \<Rightarrow> pystr" where
  "no_attribute name =
     [39] @ ascii ''NoneType'' @ [39] @ ascii '' object has no attribute '' @ [39] @ name @ [39]"

definition stripped_content :: "response \<Rightarrow> pystr answer" where
  "stripped_content resp =
     (case resp of
        [] \<Rightarrow> Inl (Exception ''IndexError'' (ascii ''list index out of range''))
      | None # _ \<Rightarrow>
          Inl (Exception ''AttributeError''
                 (no_attribute (ascii ''strip'')))
      | Some c # _ \<Rightarrow> Inr (py_strip c))"

text \<open>
  \<^verbatim>\<open>
  async def summarize_text(text: str) -> str:
      if not client:
          return MSG_NO_API_KEY
      chunks = chunk_text(text, max_chars=10_000)
      partial_summaries = []
      for i, ch in enumerate(chunks, start=1):
          resp = client.chat.completions.create(model=..., messages=[...], temperature=0.3)
          partial_summaries.append(resp.choices[0].message.content.strip())
      final_input = SEPARATOR.join(partial_summaries)
      final = client.chat.completions.create(model=..., messages=[...], temperature=0.3)
      return final.choices[0].message.content.strip()
  \<close>
  \<open>summarize_chunks\<close> is the \<open>for\<close> loop, with \<open>partial_summaries\<close> as its accumulator;
  \<open>summarize_fragments\<close> is the loop followed by the final reduction. The log lines written
  with \<open>logger.info\<close> are not modelled.
\<close>

fun summarize_chunks ::
  "(request \<Rightarrow> 'w \<Rightarrow> response answer \<times> 'w) \<Rightarrow> pystr list \<Rightarrow> pystr list \<Rightarrow> ('w, pystr list) io"
where
  "summarize_chunks create [] partial_summaries = ret partial_summaries"
| "summarize_chunks create (ch # chunks) partial_summaries =
     bind (complete create (chunk_request ch)) (\<lambda>resp.
     bind (lift (stripped_content resp)) (\<lambda>summary.
     summarize_chunks create chunks (partial_summaries @ [summary])))"

definition summarize_fragments ::
  "(request \<Rightarrow> 'w \<Rightarrow> response answer \<times> 'w) \<Rightarrow> pystr list \<Rightarrow> ('w, pystr) io" where
  "summarize_fragments create chunks =
     bind (summarize_chunks create chunks []) (\<lambda>partial_summaries.
     bind (complete create (final_request (py_join SEPARATOR partial_summaries))) (\<lambda>final.
     lift (stripped_content final)))"

definition summarize_text :: "'w env \<Rightarrow> pystr \<Rightarrow> ('w, pystr) io" where
  "summarize_text env text =
     (case client env of
        None \<Rightarrow> ret MSG_NO_API_KEY
      | Some create \<Rightarrow>
          (case chunk_text text 10000 of
             None \<Rightarrow> diverge
           | Some chunks \<Rightarrow> summarize_fragments create chunks))"

section \<open>The Retriever: \<open>download_file\<close>\<close>

text \<open>
  \<^verbatim>\<open>
  def download_file(file_url: str, dest_path: Path) -> None:
      with requests.get(file_url, stream=True, timeout=60) as r:
          r.raise_for_status()
          with open(dest_path, "wb") as f:
              for chunk in r.iter_content(chunk_size=8192):
                  if chunk:
                      f.write(chunk)
  \<close>
\<close>

fun write_chunks :: "'w env \<Rightarrow> path \<Rightarrow> bytes list \<Rightarrow> ('w, unit) io" where
  "write_chunks env dest_path [] = ret ()"
| "write_chunks env dest_path (chunk # rest) =
     bind (if chunk \<noteq> [] then call (file_write env dest_path chunk) (FileWrite dest_path chunk)
           else ret ()) (\<lambda>_.
     write_chunks env dest_path rest)"

definition download_file :: "'w env \<Rightarrow> pystr option \<Rightarrow> path \<Rightarrow> ('w, unit) io" where
  "download_file env file_url dest_path =
     bind (call (requests_get env file_url) (HttpGet file_url)) (\<lambda>r.
     ensure
       (bind (case status_error r of None \<Rightarrow> ret () | Some e \<Rightarrow> raise e) (\<lambda>_.
        bind (call (open_wb env dest_path) (FileOpen dest_path)) (\<lambda>_.
        ensure
          (bind (write_chunks env dest_path (iter_content r)) (\<lambda>_.
           case stream_error r of None \<Rightarrow> ret () | Some e \<Rightarrow> raise e))
          (call (file_close env dest_path) (FileClose dest_path)))))
       (call (response_close env) HttpClose))"

section \<open>The Request Handler: \<open>handle_document\<close>\<close>

text \<open>
  \<^verbatim>\<open>
  async def handle_document(update, context):
      message = update.message
      document = message.document
      if not document or document.mime_type != "application/pdf":
          await message.reply_text(MSG_ONLY_PDF)
          return
      try:
          file = await context.bot.get_file(document.file_id)
          file_url = file.file_path
          await message.reply_text(MSG_PROCESSING)
          with tempfile.TemporaryDirectory() as tmpdir:
              pdf_path = Path(tmpdir) / (document.file_name or "file.pdf")
              download_file(file_url, pdf_path)
              text = extract_text(str(pdf_path))
              if not text.strip():
                  await message.reply_text(MSG_NO_TEXT)
                  return
              summary = await summarize_text(text)
              await message.reply_text(summary)
      except Exception as e:
          logger.exception("Error while processing document:")
          await message.reply_text(f"{ERROR_PREFIX}{e}")
  \<close>
  \<open>process_document\<close> is the body of the \<open>try\<close>. The log line written with
  \<open>logger.exception\<close> is not modelled. Within one request every \<open>await\<close> is a call that is
  waited for before the next statement runs, so the calls of a request are sequential.
\<close>

definition reply :: "'w env \<Rightarrow> pystr \<Rightarrow> ('w, unit) io" where
  "reply env msg = call (reply_text env msg) (Reply msg)"

definition process_document :: "'w env \<Rightarrow> document \<Rightarrow> ('w, unit) io" where
  "process_document env doc =
     bind (call (get_file env (file_id doc)) (GetFile (file_id doc))) (\<lambda>file_url.
     bind (reply env MSG_PROCESSING) (\<lambda>_.
     bind (call (TemporaryDirectory env) MkTemp) (\<lambda>tmpdir.
     ensure
       (let pdf_path =
              PathJoin tmpdir
                (case file_name doc of
                   None \<Rightarrow> ascii ''file.pdf''
                 | Some name \<Rightarrow> if name = [] then ascii ''file.pdf'' else name)
        in bind (download_file env file_url pdf_path) (\<lambda>_.
           bind (call (extract_text env pdf_path) (Extract pdf_path)) (\<lambda>text.
           if py_strip text = [] then reply env MSG_NO_TEXT
           else bind (summarize_text env text) (\<lambda>summary.
                reply env summary))))
       (call (cleanup env tmpdir) (Cleanup tmpdir)))))"

definition handle_document :: "'w env \<Rightarrow> update \<Rightarrow> ('w, unit) io" where
  "handle_document env upd =
     (case message upd of
        None \<Rightarrow> raise (Exception ''AttributeError'' (no_attribute (ascii ''document'')))
      | Some msg \<Rightarrow>
          (case document msg of
             None \<Rightarrow> reply env MSG_ONLY_PDF
           | Some doc \<Rightarrow>
               if mime_type doc \<noteq> Some (ascii ''application/pdf'') then reply env MSG_ONLY_PDF
               else try_except (process_document env doc)
                      (\<lambda>e. reply env (ERROR_PREFIX @ str_exn e))))"

section \<open>An example environment\<close>

text \<open>
  A stateless environment for instantiating the theorems below: every service succeeds,
  the completion service always gives the answer \<open>completion\<close>, and the extractor always
  gives \<open>extracted\<close>. The world is the one-element type.
\<close>

definition example_env :: "pystr option \<Rightarrow> response answer \<Rightarrow> pystr answer \<Rightarrow> unit env" where
  "example_env key completion extracted =
     \<lparr>OPENAI_API_KEY = key,
      chat_completions_create = (\<lambda>k req w. (completion, w)),
      reply_text = (\<lambda>msg w. (Inr (), w)),
      get_file = (\<lambda>fid w. (Inr (Some (ascii ''https://example.org/doc'')), w)),
      TemporaryDirectory = (\<lambda>w. (Inr (ascii ''/tmp/tmpdir''), w)),
      cleanup = (\<lambda>dir w. (Inr (), w)),
      requests_get =
        (\<lambda>url w. (Inr \<lparr>status_error = None, iter_content = [[37, 80, 68, 70]],
                           stream_error = None\<rparr>, w)),
      response_close = (\<lambda>w. (Inr (), w)),
      open_wb = (\<lambda>p w. (Inr (), w)),
      file_write = (\<lambda>p chunk w. (Inr (), w)),
      file_close = (\<lambda>p w. (Inr (), w)),
      extract_text = (\<lambda>p w. (extracted, w))\<rparr>"

section \<open>Properties of the Chunker\<close>

subsection \<open>The loop computes the blocks of the text\<close>

lemma py_slice_nat: "py_slice xs (int a) (int a + int n) = take n (drop a xs)"
proof (cases "a \<le> length xs")
  case True
  then show ?thesis
    by (simp add: py_slice_def slice_index_def Let_def nat_add_distrib min_def)
next
  case False
  then show ?thesis
    by (simp add: py_slice_def slice_index_def Let_def nat_add_distrib min_def)
qed

lemma chunk_step_nat:
  assumes "a < length t" "0 < n"
  shows "chunk_step t (int n) (int a, acc)
           = (int (min (a + n) (length t)), acc @ [take n (drop a t)])"
proof -
  have e: "min (int a + int n) (int (length t)) = int (min (a + n) (length t))"
    by (simp add: min_def)
  have "py_slice t (int a) (int (min (a + n) (length t))) = take n (drop a t)"
    using assms by (simp add: py_slice_def slice_index_def Let_def min_def)
  then show ?thesis
    unfolding chunk_step_def Let_def split_conv e by simp
qed

lemma chunk_loop_blocks:
  assumes "0 < n"
  shows "a \<le> length t \<Longrightarrow> chunk_loop t (int n) (int a, acc) = Some (acc @ blocks n (drop a t))"
proof (induction "length t - a" arbitrary: a acc rule: less_induct)
  case less
  show ?case
  proof (cases "a < length t")
    case False
    with less.prems have "drop a t = []" by simp
    then show ?thesis using False
      by (subst chunk_loop.simps) (simp add: blocks.simps)
  next
    case True
    let ?b = "min (a + n) (length t)"
    have step: "chunk_step t (int n) (int a, acc) = (int ?b, acc @ [take n (drop a t)])"
      using True assms by (rule chunk_step_nat)
    have "length t - ?b < length t - a" "?b \<le> length t"
      using True assms by auto
    from less.hyps[OF this]
    have IH: "chunk_loop t (int n) (int ?b, acc @ [take n (drop a t)])
                = Some ((acc @ [take n (drop a t)]) @ blocks n (drop ?b t))" .
    have "drop ?b t = drop n (drop a t)"
      by (cases "a + n \<le> length t") (simp_all add: min_def add.commute)
    moreover have "drop a t \<noteq> []" using True by simp
    ultimately have "blocks n (drop a t) = take n (drop a t) # blocks n (drop ?b t)"
      using assms by (subst blocks.simps) simp
    with IH step True show ?thesis
      by (subst chunk_loop.simps) simp
  qed
qed

lemma chunk_text_blocks: "0 < m \<Longrightarrow> chunk_text t m = Some (blocks (nat m) t)"
  using chunk_loop_blocks [of "nat m" 0 t "[]"] by (simp add: chunk_text_def)

lemma concat_blocks: "0 < n \<Longrightarrow> concat (blocks n xs) = xs"
  by (induction n xs rule: blocks.induct) (subst blocks.simps, simp)

lemma blocks_bounded: "c \<in> set (blocks n xs) \<Longrightarrow> c \<noteq> [] \<and> length c \<le> n"
proof (induction n xs rule: blocks.induct)
  case (1 n xs)
  then show ?case
    by (subst (asm) (2) blocks.simps) (auto split: if_splits)
qed

lemma div_add_Suc: "0 < (n::nat) \<Longrightarrow> (k + n) div n = Suc (k div n)"
  by simp

lemma length_blocks: "0 < n \<Longrightarrow> length (blocks n xs) = (length xs + n - 1) div n"
proof (induction n xs rule: blocks.induct)
  case (1 n xs)
  show ?case
  proof (cases "xs = []")
    case True
    then show ?thesis using 1(2) by (simp add: blocks.simps)
  next
    case False
    then have len: "0 < length xs" by simp
    have unfold: "length (blocks n xs) = Suc (length (blocks n (drop n xs)))"
      using False 1(2) by (subst blocks.simps) simp
    have IH: "length (blocks n (drop n xs)) = (length (drop n xs) + n - 1) div n"
      using 1(1) False 1(2) by simp
    have "(length xs + n - 1) div n = Suc ((length (drop n xs) + n - 1) div n)"
    proof (cases "n \<le> length xs")
      case True
      then have "length xs + n - 1 = (length (drop n xs) + n - 1) + n"
        using 1(2) by simp
      then have "(length xs + n - 1) div n = ((length (drop n xs) + n - 1) + n) div n"
        by (rule arg_cong)
      also have "\<dots> = Suc ((length (drop n xs) + n - 1) div n)"
        using 1(2) by (rule div_add_Suc)
      finally show ?thesis .
    next
      case short: False
      then have a: "(length (drop n xs) + n - 1) div n = 0"
        using 1(2) by simp
      have "length xs + n - 1 = (length xs - 1) + n"
        using len by linarith
      then have "(length xs + n - 1) div n = ((length xs - 1) + n) div n"
        by (rule arg_cong)
      also have "\<dots> = Suc ((length xs - 1) div n)"
        using 1(2) by (rule div_add_Suc)
      also have "(length xs - 1) div n = 0"
        using short by simp
      finally show ?thesis using a by simp
    qed
    with unfold IH show ?thesis by simp
  qed
qed

lemma nth_blocks: "i < length (blocks n xs) \<Longrightarrow> blocks n xs ! i = take n (drop (i * n) xs)"
proof (induction n xs arbitrary: i rule: blocks.induct)
  case (1 n xs)
  show ?case
  proof (cases "n = 0 \<or> xs = []")
    case True
    then show ?thesis using 1(2) by (simp add: blocks.simps)
  next
    case False
    then have eq: "blocks n xs = take n xs # blocks n (drop n xs)"
      by (subst blocks.simps) simp
    show ?thesis
    proof (cases i)
      case 0
      then show ?thesis using eq by simp
    next
      case (Suc j)
      then have "j < length (blocks n (drop n xs))" using 1(2) eq by simp
      from 1(1)[OF False this] show ?thesis using eq Suc by (simp add: add.commute)
    qed
  qed
qed

lemma blocks_full: "Suc i < length (blocks n xs) \<Longrightarrow> length (blocks n xs ! i) = n"
proof (induction n xs arbitrary: i rule: blocks.induct)
  case (1 n xs)
  show ?case
  proof (cases "n = 0 \<or> xs = []")
    case True
    then show ?thesis using 1(2) by (simp add: blocks.simps)
  next
    case False
    then have eq: "blocks n xs = take n xs # blocks n (drop n xs)"
      by (subst blocks.simps) simp
    show ?thesis
    proof (cases i)
      case 0
      then have "blocks n (drop n xs) \<noteq> []" using 1(2) eq by auto
      then have "drop n xs \<noteq> []" by (auto simp: blocks.simps)
      then show ?thesis using eq 0 by simp
    next
      case (Suc j)
      then have "Suc j < length (blocks n (drop n xs))" using 1(2) eq by simp
      from 1(1)[OF False this] show ?thesis using eq Suc by simp
    qed
  qed
qed

lemma blocks_Nil: "blocks n [] = []"
  by (simp add: blocks.simps)

lemma blocks_Cons: "0 < n \<Longrightarrow> xs \<noteq> [] \<Longrightarrow> blocks n xs = take n xs # blocks n (drop n xs)"
  by (subst blocks.simps) simp

lemma chunk_loop_exit: "\<not> fst st < int (length t) \<Longrightarrow> chunk_loop t m st = Some (snd st)"
  by (subst chunk_loop.simps) simp

lemma chunk_loop_diverges:
  assumes "chunk_loop t m st = Some y" and "m \<le> 0"
  shows "\<not> fst st < int (length t)"
proof -
  have "m \<le> 0 \<longrightarrow> \<not> fst st < int (length t)"
  proof (rule chunk_loop.raw_induct
      [where P = "\<lambda>t m st y. m \<le> 0 \<longrightarrow> \<not> fst st < int (length t)", OF _ assms(1)])
    fix f :: "pystr \<Rightarrow> int \<Rightarrow> int \<times> pystr list \<Rightarrow> pystr list option"
    fix t m st y
    assume IH: "\<And>t m st y. f t m st = Some y \<Longrightarrow> m \<le> 0 \<longrightarrow> \<not> fst st < int (length t)"
      and eq: "(if fst st < int (length t) then f t m (chunk_step t m st) else Some (snd st))
                 = Some y"
    show "m \<le> 0 \<longrightarrow> \<not> fst st < int (length t)"
    proof (intro impI notI)
      assume le: "m \<le> 0" and lt: "fst st < int (length t)"
      from eq lt have "f t m (chunk_step t m st) = Some y" by simp
      with IH le have "\<not> fst (chunk_step t m st) < int (length t)" by blast
      moreover have "fst (chunk_step t m st) < int (length t)"
        using lt le by (cases st) (simp add: chunk_step_def Let_def)
      ultimately show False by simp
    qed
  qed
  with assms(2) show ?thesis by simp
qed

lemma chunk_text_diverges: "m \<le> 0 \<Longrightarrow> t \<noteq> [] \<Longrightarrow> chunk_text t m = None"
  using chunk_loop_diverges [of t m "(0, [])"]
  by (cases "chunk_text t m") (auto simp: chunk_text_def)

lemma ceiling_div_nat:
  assumes "0 < n"
  shows "int ((l + n - 1) div n) = \<lceil>real l / real n\<rceil>"
proof -
  let ?q = "(l + n - 1) div n"
  have up: "l \<le> ?q * n"
  proof -
    have "l + n - 1 < (Suc ?q) * n"
      using assms by (metis dividend_less_div_times mult.commute add.commute mult_Suc)
    then show ?thesis using assms by simp
  qed
  have low: "?q * n < l + n"
  proof -
    have "?q * n \<le> l + n - 1" by (simp add: div_times_less_eq_dividend)
    then show ?thesis using assms by linarith
  qed
  have a: "real l / real n \<le> real ?q"
    using up assms by (simp add: divide_le_eq flip: of_nat_mult)
  have b: "real ?q - 1 < real l / real n"
  proof -
    have "real (?q * n) < real (l + n)" using low by (simp only: of_nat_less_iff)
    then have "(real ?q - 1) * real n < real l" by (simp add: algebra_simps)
    then show ?thesis using assms by (simp add: less_divide_eq)
  qed
  have "\<lceil>real l / real n\<rceil> = int ?q"
    by (rule ceiling_unique) (use a b in simp_all)
  then show ?thesis by simp
qed

subsection \<open>The contract of the Chunker\<close>

text \<open>
  C1. For every text and every positive \<open>max_chars\<close>, \<open>chunk_text\<close> returns an ordered
  sequence of fragments whose concatenation is the text, each of length at most \<open>max_chars\<close>
  (the last one included); fragment \<open>i\<close> is the slice \<open>text[i * max_chars : (i + 1) * max_chars]\<close>,
  so the fragments are contiguous and do not overlap.
\<close>

theorem chunk_text_partition:
  assumes "0 < max_chars"
  shows "\<exists>chunks. chunk_text text max_chars = Some chunks \<and> concat chunks = text \<and>
           (\<forall>c \<in> set chunks. int (length c) \<le> max_chars) \<and>
           (\<forall>i < length chunks.
              chunks ! i = py_slice text (int i * max_chars) (int i * max_chars + max_chars))"
proof -
  define n where "n = nat max_chars"
  then have n: "0 < n" "max_chars = int n" using assms by simp_all
  have "chunk_text text max_chars = Some (blocks n text)"
    using assms by (simp add: chunk_text_blocks n_def)
  moreover have "concat (blocks n text) = text"
    using n(1) by (rule concat_blocks)
  moreover have "\<forall>c \<in> set (blocks n text). int (length c) \<le> max_chars"
    using blocks_bounded [of _ n "text"] n(2) by auto
  moreover have "\<forall>i < length (blocks n text).
      blocks n text ! i = py_slice text (int i * max_chars) (int i * max_chars + max_chars)"
  proof (intro allI impI)
    fix i assume "i < length (blocks n text)"
    then have "blocks n text ! i = take n (drop (i * n) text)" by (rule nth_blocks)
    also have "\<dots> = py_slice text (int (i * n)) (int (i * n) + int n)"
      by (rule py_slice_nat [symmetric])
    finally show "blocks n text ! i
        = py_slice text (int i * max_chars) (int i * max_chars + max_chars)"
      by (simp add: n(2))
  qed
  ultimately show ?thesis by blast
qed

theorem chunk_text_partition_witness:
  "(0::int) < 2 \<and>
   (\<exists>chunks. chunk_text [104, 101, 108, 108, 111] 2 = Some chunks \<and>
      concat chunks = [104, 101, 108, 108, 111] \<and>
      (\<forall>c \<in> set chunks. int (length c) \<le> 2) \<and>
      (\<forall>i < length chunks.
         chunks ! i = py_slice [104, 101, 108, 108, 111] (int i * 2) (int i * 2 + 2)))"
  using chunk_text_partition [of 2 "[104, 101, 108, 108, 111]"] by simp

text \<open>
  C2, amended. For every non-empty text with \<open>max_chars \<ge> len(text)\<close>, \<open>chunk_text\<close> returns
  exactly one fragment, the whole text.
\<close>

theorem chunk_text_single_fragment:
  assumes "text \<noteq> []" and "int (length text) \<le> max_chars"
  shows "chunk_text text max_chars = Some [text]"
proof -
  have pos: "0 < max_chars" using assms by (cases "text") auto
  then have "0 < nat max_chars" "length text \<le> nat max_chars" using assms(2) by simp_all
  then have "blocks (nat max_chars) text = [text]"
    using assms(1) by (simp add: blocks_Cons blocks_Nil)
  then show ?thesis using pos by (simp add: chunk_text_blocks)
qed

theorem chunk_text_single_fragment_witness:
  "[104, 105] \<noteq> ([] :: pystr) \<and> int (length [104, 105 :: nat]) \<le> 2 \<and>
   chunk_text [104, 105] 2 = Some [[104, 105]]"
  using chunk_text_single_fragment [of "[104, 105]" 2] by simp

text \<open>
  Without the non-emptiness condition the statement fails: the empty text has length
  \<open>0 \<le> 10000\<close>, and the loop body never runs, so the result is the empty sequence and not
  the sequence holding one empty fragment.
\<close>

theorem chunk_text_single_fragment_counterexample:
  "int (length ([] :: pystr)) \<le> 10000 \<and> chunk_text [] 10000 = Some [] \<and>
   chunk_text [] 10000 \<noteq> Some [[]]"
  by (simp add: chunk_text_def chunk_loop_exit)

text \<open>
  C3. For the empty text, \<open>chunk_text\<close> returns the empty sequence of fragments, for every
  \<open>max_chars\<close> (positive or not).
\<close>

theorem chunk_text_empty: "chunk_text [] max_chars = Some []"
  by (simp add: chunk_text_def chunk_loop_exit)

text \<open>
  C9. \<open>chunk_text\<close> returns for every text exactly when \<open>max_chars \<ge> 1\<close>: positivity is
  sufficient and, over all texts, necessary. With \<open>max_chars \<ge> 1\<close>, one run of the loop body
  from a \<open>start\<close> below \<open>len(text)\<close> advances \<open>start\<close> by \<open>min(max_chars, len(text) - start)\<close>,
  which is a strict increase that stays within the text.
\<close>

theorem chunk_text_terminates:
  "((\<forall>text. \<exists>chunks. chunk_text text max_chars = Some chunks) \<longleftrightarrow> 1 \<le> max_chars) \<and>
   (1 \<le> max_chars \<and> start < int (length text) \<longrightarrow>
      fst (chunk_step text max_chars (start, chunks))
        = start + min max_chars (int (length text) - start) \<and>
      start < fst (chunk_step text max_chars (start, chunks)) \<and>
      fst (chunk_step text max_chars (start, chunks)) \<le> int (length text))"
proof (intro conjI iffI impI)
  assume all: "\<forall>text. \<exists>chunks. chunk_text text max_chars = Some chunks"
  show "1 \<le> max_chars"
  proof (rule ccontr)
    assume "\<not> 1 \<le> max_chars"
    then have "chunk_text [0] max_chars = None" by (intro chunk_text_diverges) simp_all
    with all show False by (metis option.distinct(1))
  qed
next
  assume "1 \<le> max_chars"
  then show "\<forall>text. \<exists>chunks. chunk_text text max_chars = Some chunks"
    by (simp add: chunk_text_blocks)
next
  assume "1 \<le> max_chars \<and> start < int (length text)"
  then show "fst (chunk_step text max_chars (start, chunks))
        = start + min max_chars (int (length text) - start)"
    by (simp add: chunk_step_def Let_def min_def)
next
  assume "1 \<le> max_chars \<and> start < int (length text)"
  then show "start < fst (chunk_step text max_chars (start, chunks))"
    by (simp add: chunk_step_def Let_def min_def)
next
  assume "1 \<le> max_chars \<and> start < int (length text)"
  then show "fst (chunk_step text max_chars (start, chunks)) \<le> int (length text)"
    by (simp add: chunk_step_def Let_def min_def)
qed

theorem chunk_text_terminates_witness:
  "(1::int) \<le> 2 \<and> (0::int) < int (length [104, 105, 33 :: nat]) \<and>
   (\<forall>text. \<exists>chunks. chunk_text text 2 = Some chunks) \<and>
   fst (chunk_step [104, 105, 33] 2 (0, [])) = 0 + min 2 (int (length [104, 105, 33 :: nat]) - 0) \<and>
   0 < fst (chunk_step [104, 105, 33] 2 (0, [])) \<and>
   \<not> (\<forall>text. \<exists>chunks. chunk_text text 0 = Some chunks)"
  using chunk_text_terminates [of 2 0 "[104, 105, 33]" "[]"]
        chunk_text_terminates [of 0 0 "[]" "[]"]
  by simp

text \<open>
  C10. For every non-empty text and every positive \<open>max_chars\<close>, every fragment except
  possibly the last has length exactly \<open>max_chars\<close>, every fragment is non-empty, and the
  number of fragments is \<open>\<lceil>len(text) / max_chars\<rceil>\<close>.
\<close>

theorem chunk_text_sizes:
  assumes "text \<noteq> []" and "0 < max_chars"
  shows "\<exists>chunks. chunk_text text max_chars = Some chunks \<and>
           (\<forall>i. Suc i < length chunks \<longrightarrow> int (length (chunks ! i)) = max_chars) \<and>
           (\<forall>c \<in> set chunks. c \<noteq> []) \<and>
           int (length chunks) = \<lceil>real (length text) / real_of_int max_chars\<rceil>"
proof -
  define n where "n = nat max_chars"
  then have n: "0 < n" "max_chars = int n" using assms by simp_all
  have "chunk_text text max_chars = Some (blocks n text)"
    using assms by (simp add: chunk_text_blocks n_def)
  moreover have "\<forall>i. Suc i < length (blocks n text) \<longrightarrow> int (length (blocks n text ! i)) = max_chars"
    using blocks_full [of _ n "text"] n(2) by simp
  moreover have "\<forall>c \<in> set (blocks n text). c \<noteq> []"
    using blocks_bounded [of _ n "text"] by blast
  moreover have "int (length (blocks n text)) = \<lceil>real (length text) / real_of_int max_chars\<rceil>"
    using ceiling_div_nat [OF n(1), of "length text"] n by (simp add: length_blocks)
  ultimately show ?thesis by blast
qed

theorem chunk_text_sizes_witness:
  "[104, 101, 108, 108, 111] \<noteq> ([] :: pystr) \<and> (0::int) < 2 \<and>
   (\<exists>chunks. chunk_text [104, 101, 108, 108, 111] 2 = Some chunks \<and>
      (\<forall>i. Suc i < length chunks \<longrightarrow> int (length (chunks ! i)) = 2) \<and>
      (\<forall>c \<in> set chunks. c \<noteq> []) \<and>
      int (length chunks) = \<lceil>real (length [104, 101, 108, 108, 111 :: nat]) / real_of_int 2\<rceil>)"
  using chunk_text_sizes [of "[104, 101, 108, 108, 111]" 2] by simp

section \<open>Properties of the Reducer\<close>

subsection \<open>Running the pieces of a computation\<close>

lemma ret_apply: "ret x w = (Return x, [], w)"
  by (simp add: ret_def)

lemma raise_apply: "raise e w = (Raise e, [], w)"
  by (simp add: raise_def)

lemma lift_apply:
  "lift (Inr x) w = (Return x, [], w)" "lift (Inl e) w = (Raise e, [], w)"
  by (simp_all add: lift_def ret_def raise_def)

lemma bind_Return:
  "m w = (Return x, evs, w') \<Longrightarrow>
   bind m f w = (case f x w' of (r, evs', w'') \<Rightarrow> (r, evs @ evs', w''))"
  by (simp add: bind_def)

lemma bind_Raise: "m w = (Raise e, evs, w') \<Longrightarrow> bind m f w = (Raise e, evs, w')"
  by (simp add: bind_def)

lemma bind_Diverge: "m w = (Diverge, evs, w') \<Longrightarrow> bind m f w = (Diverge, evs, w')"
  by (simp add: bind_def)

lemma call_Inr: "f w = (Inr x, w') \<Longrightarrow> call f ev w = (Return x, [ev (Inr x)], w')"
  by (simp add: call_def)

lemma call_Inl: "f w = (Inl e, w') \<Longrightarrow> call f ev w = (Raise e, [ev (Inl e)], w')"
  by (simp add: call_def)

lemma summarize_chunks_call_fails:
  assumes "create (chunk_request ch) w = (Inl e, w1)"
  shows "summarize_chunks create (ch # chunks) acc w
           = (Raise e, [Complete (chunk_request ch) (Inl e)], w1)"
  using assms by (simp add: complete_def bind_Raise call_Inl)

lemma summarize_chunks_bad_response:
  assumes "create (chunk_request ch) w = (Inr resp, w1)" and "stripped_content resp = Inl e"
  shows "summarize_chunks create (ch # chunks) acc w
           = (Raise e, [Complete (chunk_request ch) (Inr resp)], w1)"
proof -
  have "complete create (chunk_request ch) w
          = (Return resp, [Complete (chunk_request ch) (Inr resp)], w1)"
    using assms(1) by (simp add: complete_def call_Inr)
  then show ?thesis
    using assms(2) by (simp add: bind_Return bind_Raise lift_apply)
qed

lemma summarize_chunks_step:
  assumes "create (chunk_request ch) w = (Inr resp, w1)" and "stripped_content resp = Inr s"
  shows "summarize_chunks create (ch # chunks) acc w
           = (case summarize_chunks create chunks (acc @ [s]) w1 of
                (r, evs, w') \<Rightarrow> (r, Complete (chunk_request ch) (Inr resp) # evs, w'))"
proof -
  have "complete create (chunk_request ch) w
          = (Return resp, [Complete (chunk_request ch) (Inr resp)], w1)"
    using assms(1) by (simp add: complete_def call_Inr)
  then show ?thesis
    using assms(2) by (simp add: bind_Return lift_apply split: prod.splits)
qed

declare summarize_chunks.simps(2) [simp del]

text \<open>The three ways one iteration of the loop can go.\<close>

lemma summarize_chunks_cases:
  obtains (call_fails) e w1 where "create (chunk_request ch) w = (Inl e, w1)"
  | (bad_response) resp w1 e where
      "create (chunk_request ch) w = (Inr resp, w1)" "stripped_content resp = Inl e"
  | (step) resp w1 s where
      "create (chunk_request ch) w = (Inr resp, w1)" "stripped_content resp = Inr s"
proof (cases "create (chunk_request ch) w")
  case (Pair r w1)
  show ?thesis
  proof (cases r)
    case (Inl e)
    with Pair show ?thesis by (auto intro: call_fails)
  next
    case (Inr resp)
    with Pair show ?thesis
      by (cases "stripped_content resp") (auto intro: bad_response step)
  qed
qed



lemma summarize_chunks_failed_call:
  "Complete q (Inl e) \<in> set (events_of (summarize_chunks create chunks acc w)) \<Longrightarrow>
   outcome_of (summarize_chunks create chunks acc w) = Raise e"
proof (induction chunks arbitrary: acc w)
  case Nil
  then show ?case by (simp add: events_of_def ret_apply)
next
  case (Cons ch chunks)
  show ?case
  proof (cases rule: summarize_chunks_cases [of create ch w])
    case (call_fails e' w1)
    with Cons.prems show ?thesis
      by (simp add: summarize_chunks_call_fails events_of_def outcome_of_def)
  next
    case (bad_response resp w1 e')
    with Cons.prems show ?thesis
      by (simp add: summarize_chunks_bad_response events_of_def)
  next
    case (step resp w1 s)
    with Cons.prems
    have "Complete q (Inl e) \<in> set (events_of (summarize_chunks create chunks (acc @ [s]) w1))"
      by (simp add: summarize_chunks_step events_of_def split: prod.splits)
    from Cons.IH [OF this] show ?thesis
      using step by (auto simp: summarize_chunks_step outcome_of_def split: prod.splits)
  qed
qed

lemma summarize_chunks_not_Diverge:
  "outcome_of (summarize_chunks create chunks acc w) \<noteq> Diverge"
proof (induction chunks arbitrary: acc w)
  case Nil
  show ?case by (simp add: outcome_of_def ret_apply)
next
  case (Cons ch chunks)
  show ?case
  proof (cases rule: summarize_chunks_cases [of create ch w])
    case (call_fails e' w1)
    then show ?thesis by (simp add: summarize_chunks_call_fails outcome_of_def)
  next
    case (bad_response resp w1 e')
    then show ?thesis by (simp add: summarize_chunks_bad_response outcome_of_def)
  next
    case (step resp w1 s)
    then show ?thesis
      using Cons.IH [of "acc @ [s]" w1]
      by (auto simp: summarize_chunks_step outcome_of_def split: prod.splits)
  qed
qed

lemma summarize_chunks_returns:
  assumes "\<forall>req w. \<exists>c rest w'. create req w = (Inr (Some c # rest), w')"
  shows "\<exists>ps evs w'. summarize_chunks create chunks acc w = (Return ps, evs, w')"
proof (induction chunks arbitrary: acc w)
  case Nil
  show ?case by (simp add: ret_apply)
next
  case (Cons ch chunks)
  from assms obtain c rest w1 where
    a: "create (chunk_request ch) w = (Inr (Some c # rest), w1)" by blast
  have b: "stripped_content (Some c # rest) = Inr (py_strip c)"
    by (simp add: stripped_content_def)
  from Cons.IH [of "acc @ [py_strip c]" w1] show ?case
    by (auto simp: summarize_chunks_step [where create = create, OF a b])
qed

lemma summarize_fragments_reduce:
  assumes "summarize_chunks create chunks [] w = (Return ps, evs, w1)"
    and "create (final_request (py_join SEPARATOR ps)) w1 = (r, w2)"
  shows "summarize_fragments create chunks w
           = ((case r of Inl e \<Rightarrow> Raise e
               | Inr final \<Rightarrow> (case stripped_content final of Inl e \<Rightarrow> Raise e | Inr s \<Rightarrow> Return s)),
              evs @ [Complete (final_request (py_join SEPARATOR ps)) r], w2)"
proof (cases r)
  case (Inl e)
  then show ?thesis
    using assms by (simp add: summarize_fragments_def bind_Return complete_def call_Inl bind_Raise)
next
  case (Inr final)
  then have "complete create (final_request (py_join SEPARATOR ps)) w1
      = (Return final, [Complete (final_request (py_join SEPARATOR ps)) r], w2)"
    using assms(2) by (simp add: complete_def call_Inr)
  then show ?thesis
    using assms(1) Inr
    by (cases "stripped_content final")
       (simp_all add: summarize_fragments_def bind_Return lift_apply)
qed

lemma summarize_fragments_abort:
  assumes "summarize_chunks create chunks [] w = (Raise e, evs, w1)"
  shows "summarize_fragments create chunks w = (Raise e, evs, w1)"
  using assms by (simp add: summarize_fragments_def bind_Raise)

lemma summarize_text_configured:
  assumes "OPENAI_API_KEY env = Some key" and "key \<noteq> []"
    and "chunk_text text 10000 = Some chunks"
  shows "summarize_text env text = summarize_fragments (chat_completions_create env key) chunks"
  using assms by (simp add: summarize_text_def client_def)

lemma length_3_nth: "length xs = 3 \<Longrightarrow> xs = [xs ! 0, xs ! 1, xs ! 2]"
  by (auto simp: length_Suc_conv numeral_3_eq_3)

lemma chunk_text_25000:
  assumes "length t = 25000"
  shows "chunk_text t 10000
           = Some [take 10000 t, take 10000 (drop 10000 t), drop 20000 t]"
proof -
  have a: "blocks 10000 t = take 10000 t # blocks 10000 (drop 10000 t)"
    using assms by (intro blocks_Cons) auto
  have b: "blocks 10000 (drop 10000 t)
             = take 10000 (drop 10000 t) # blocks 10000 (drop 20000 t)"
    using assms blocks_Cons [of 10000 "drop 10000 t"] by auto
  have c: "blocks 10000 (drop 20000 t) = drop 20000 t # blocks 10000 (drop 30000 t)"
    using assms blocks_Cons [of 10000 "drop 20000 t"] by auto
  have d: "drop 30000 t = []" using assms by simp
  show ?thesis
    by (simp add: chunk_text_blocks a b c d blocks_Nil)
qed

lemma chunk_text_10000_total: "\<exists>chunks. chunk_text t 10000 = Some chunks"
  by (simp add: chunk_text_blocks)

lemma summarize_fragments_failed_call:
  assumes "Complete q (Inl e) \<in> set (events_of (summarize_fragments create chunks w))"
  shows "outcome_of (summarize_fragments create chunks w) = Raise e"
proof (cases "summarize_chunks create chunks [] w")
  case (fields out evs w1)
  show ?thesis
  proof (cases out)
    case (Return ps)
    obtain r w2 where fin: "create (final_request (py_join SEPARATOR ps)) w1 = (r, w2)"
      by (cases "create (final_request (py_join SEPARATOR ps)) w1")
    have run: "summarize_chunks create chunks [] w = (Return ps, evs, w1)"
      using fields Return by simp
    have "Complete q (Inl e) \<notin> set evs"
    proof
      assume "Complete q (Inl e) \<in> set evs"
      then have "outcome_of (summarize_chunks create chunks [] w) = Raise e"
        using summarize_chunks_failed_call [of q e create chunks "[]" w] run
        by (simp add: events_of_def)
      then show False using run by (simp add: outcome_of_def)
    qed
    then have "r = Inl e"
      using assms by (simp add: summarize_fragments_reduce [OF run fin] events_of_def)
    then show ?thesis
      by (simp add: summarize_fragments_reduce [OF run fin] outcome_of_def)
  next
    case (Raise e')
    then have run: "summarize_chunks create chunks [] w = (Raise e', evs, w1)"
      using fields by simp
    then have "Complete q (Inl e) \<in> set (events_of (summarize_chunks create chunks [] w))"
      using assms by (simp add: summarize_fragments_abort [OF run] events_of_def)
    then have "outcome_of (summarize_chunks create chunks [] w) = Raise e"
      by (rule summarize_chunks_failed_call)
    then show ?thesis
      using run by (simp add: summarize_fragments_abort [OF run] outcome_of_def)
  next
    case Diverge
    then show ?thesis
      using summarize_chunks_not_Diverge [of create chunks "[]" w] fields
      by (simp add: outcome_of_def)
  qed
qed

lemma summarize_text_failed_call:
  assumes "Complete q (Inl e) \<in> set (events_of (summarize_text env t w))"
  shows "outcome_of (summarize_text env t w) = Raise e"
proof (cases "client env")
  case None
  then show ?thesis using assms by (simp add: summarize_text_def ret_apply events_of_def)
next
  case (Some create)
  obtain chunks where "chunk_text t 10000 = Some chunks"
    using chunk_text_10000_total by blast
  then have "summarize_text env t = summarize_fragments create chunks"
    using Some by (simp add: summarize_text_def)
  then show ?thesis using assms by (simp add: summarize_fragments_failed_call)
qed

subsection \<open>The contract of the Reducer\<close>

text \<open>
  C4. For a text of exactly 25000 characters, \<open>chunk_text\<close> with \<open>max_chars = 10000\<close> returns
  exactly three fragments, of 10000, 10000 and 5000 characters in that order. With a
  configured completion service that answers every call with a response holding text,
  \<open>summarize_text\<close> then makes exactly four completion calls: one per fragment, in order,
  and last the final reduction over the three partial summaries.
\<close>

theorem scenario_25000_chars:
  assumes "length text = 25000"
  shows "\<exists>c1 c2 c3. chunk_text text 10000 = Some [c1, c2, c3] \<and>
           length c1 = 10000 \<and> length c2 = 10000 \<and> length c3 = 5000 \<and>
           (\<forall>(env :: 'w env) w key.
              OPENAI_API_KEY env = Some key \<and> key \<noteq> [] \<and>
              (\<forall>req w. \<exists>c rest w'. chat_completions_create env key req w = (Inr (Some c # rest), w'))
              \<longrightarrow>
              (\<exists>r1 r2 r3 r4 s1 s2 s3.
                 events_of (summarize_text env text w)
                   = [Complete (chunk_request c1) (Inr r1),
                      Complete (chunk_request c2) (Inr r2),
                      Complete (chunk_request c3) (Inr r3),
                      Complete (final_request (py_join SEPARATOR [s1, s2, s3])) (Inr r4)] \<and>
                 stripped_content r1 = Inr s1 \<and> stripped_content r2 = Inr s2 \<and>
                 stripped_content r3 = Inr s3))"
proof -
  define c1 c2 c3 where "c1 = take 10000 text" and "c2 = take 10000 (drop 10000 text)"
    and "c3 = drop 20000 text"
  have chunks: "chunk_text text 10000 = Some [c1, c2, c3]"
    unfolding c1_def c2_def c3_def using assms by (rule chunk_text_25000)
  have sizes: "length c1 = 10000" "length c2 = 10000" "length c3 = 5000"
    using assms by (simp_all add: c1_def c2_def c3_def)
  have calls: "\<exists>r1 r2 r3 r4 s1 s2 s3.
       events_of (summarize_text env text w)
         = [Complete (chunk_request c1) (Inr r1), Complete (chunk_request c2) (Inr r2),
            Complete (chunk_request c3) (Inr r3),
            Complete (final_request (py_join SEPARATOR [s1, s2, s3])) (Inr r4)] \<and>
       stripped_content r1 = Inr s1 \<and> stripped_content r2 = Inr s2 \<and>
       stripped_content r3 = Inr s3"
    if key: "OPENAI_API_KEY env = Some key" "key \<noteq> []"
      and answers: "\<forall>req w. \<exists>c rest w'.
             chat_completions_create env key req w = (Inr (Some c # rest), w')"
    for env :: "'w env" and w key
  proof -
    let ?create = "chat_completions_create env key"
    have whole: "summarize_text env text = summarize_fragments ?create [c1, c2, c3]"
      using key chunks by (rule summarize_text_configured)
    have st: "stripped_content (Some a # t) = Inr (py_strip a)" for a t
      by (simp add: stripped_content_def)
    obtain a1 t1 w1 where k1: "?create (chunk_request c1) w = (Inr (Some a1 # t1), w1)"
      using answers by blast
    obtain a2 t2 w2 where k2: "?create (chunk_request c2) w1 = (Inr (Some a2 # t2), w2)"
      using answers by blast
    obtain a3 t3 w3 where k3: "?create (chunk_request c3) w2 = (Inr (Some a3 # t3), w3)"
      using answers by blast
    have run: "summarize_chunks ?create [c1, c2, c3] [] w
        = (Return [py_strip a1, py_strip a2, py_strip a3],
           [Complete (chunk_request c1) (Inr (Some a1 # t1)),
            Complete (chunk_request c2) (Inr (Some a2 # t2)),
            Complete (chunk_request c3) (Inr (Some a3 # t3))], w3)"
      by (simp add: summarize_chunks_step [where create = ?create, OF k1 st]
            summarize_chunks_step [where create = ?create, OF k2 st]
            summarize_chunks_step [where create = ?create, OF k3 st] ret_apply)
    obtain a4 t4 w4 where
      fin: "?create (final_request (py_join SEPARATOR [py_strip a1, py_strip a2, py_strip a3])) w3
              = (Inr (Some a4 # t4), w4)"
      using answers by blast
    have ev: "events_of (summarize_text env text w)
        = [Complete (chunk_request c1) (Inr (Some a1 # t1)),
           Complete (chunk_request c2) (Inr (Some a2 # t2)),
           Complete (chunk_request c3) (Inr (Some a3 # t3)),
           Complete (final_request (py_join SEPARATOR [py_strip a1, py_strip a2, py_strip a3]))
             (Inr (Some a4 # t4))]"
      unfolding whole summarize_fragments_reduce [OF run fin] by (simp add: events_of_def)
    show ?thesis
      by (rule exI [of _ "Some a1 # t1"], rule exI [of _ "Some a2 # t2"],
          rule exI [of _ "Some a3 # t3"], rule exI [of _ "Some a4 # t4"],
          rule exI [of _ "py_strip a1"], rule exI [of _ "py_strip a2"],
          rule exI [of _ "py_strip a3"]) (simp only: ev st simp_thms)
  qed
  have inner: "\<forall>(env :: 'w env) w key.
      OPENAI_API_KEY env = Some key \<and> key \<noteq> [] \<and>
      (\<forall>req w. \<exists>c rest w'. chat_completions_create env key req w = (Inr (Some c # rest), w'))
      \<longrightarrow>
      (\<exists>r1 r2 r3 r4 s1 s2 s3.
         events_of (summarize_text env text w)
           = [Complete (chunk_request c1) (Inr r1),
              Complete (chunk_request c2) (Inr r2),
              Complete (chunk_request c3) (Inr r3),
              Complete (final_request (py_join SEPARATOR [s1, s2, s3])) (Inr r4)] \<and>
         stripped_content r1 = Inr s1 \<and> stripped_content r2 = Inr s2 \<and>
         stripped_content r3 = Inr s3)"
  proof (intro allI impI)
    fix env :: "'w env" and w key
    assume h: "OPENAI_API_KEY env = Some key \<and> key \<noteq> [] \<and>
      (\<forall>req w. \<exists>c rest w'. chat_completions_create env key req w = (Inr (Some c # rest), w'))"
    from h have "OPENAI_API_KEY env = Some key" "key \<noteq> []"
      "\<forall>req w. \<exists>c rest w'. chat_completions_create env key req w = (Inr (Some c # rest), w')"
      by blast+
    then show "\<exists>r1 r2 r3 r4 s1 s2 s3.
         events_of (summarize_text env text w)
           = [Complete (chunk_request c1) (Inr r1),
              Complete (chunk_request c2) (Inr r2),
              Complete (chunk_request c3) (Inr r3),
              Complete (final_request (py_join SEPARATOR [s1, s2, s3])) (Inr r4)] \<and>
         stripped_content r1 = Inr s1 \<and> stripped_content r2 = Inr s2 \<and>
         stripped_content r3 = Inr s3"
      by (rule calls)
  qed
  show ?thesis
    by (rule exI [of _ c1], rule exI [of _ c2], rule exI [of _ c3])
       (intro conjI chunks sizes inner)
qed

theorem scenario_25000_chars_witness:
  "length (replicate 25000 (97::nat)) = 25000 \<and>
   OPENAI_API_KEY (example_env (Some [107]) (Inr [Some [32, 111, 107]]) (Inr [])) = Some [107] \<and>
   [107] \<noteq> ([] :: pystr) \<and>
   (\<forall>req w. \<exists>c rest w'.
      chat_completions_create (example_env (Some [107]) (Inr [Some [32, 111, 107]]) (Inr []))
        [107] req w = (Inr (Some c # rest), w')) \<and>
   (\<exists>c1 c2 c3. chunk_text (replicate 25000 97) 10000 = Some [c1, c2, c3] \<and>
      length c1 = 10000 \<and> length c2 = 10000 \<and> length c3 = 5000 \<and>
      (\<exists>r1 r2 r3 r4 s1 s2 s3.
         events_of (summarize_text (example_env (Some [107]) (Inr [Some [32, 111, 107]]) (Inr []))
                      (replicate 25000 97) ())
           = [Complete (chunk_request c1) (Inr r1),
              Complete (chunk_request c2) (Inr r2),
              Complete (chunk_request c3) (Inr r3),
              Complete (final_request (py_join SEPARATOR [s1, s2, s3])) (Inr r4)] \<and>
         stripped_content r1 = Inr s1 \<and> stripped_content r2 = Inr s2 \<and>
         stripped_content r3 = Inr s3))"
proof -
  let ?env = "example_env (Some [107]) (Inr [Some [32, 111, 107]]) (Inr [])"
  let ?t = "replicate 25000 (97::nat)"
  have h1: "length ?t = 25000" by (rule length_replicate)
  have h2: "OPENAI_API_KEY ?env = Some [107]" by (simp add: example_env_def)
  have h3: "[107] \<noteq> ([] :: pystr)" by simp
  have h4: "\<forall>req w. \<exists>c rest w'.
      chat_completions_create ?env [107] req w = (Inr (Some c # rest), w')"
    by (simp add: example_env_def)
  have "\<exists>c1 c2 c3. chunk_text ?t 10000 = Some [c1, c2, c3] \<and>
      length c1 = 10000 \<and> length c2 = 10000 \<and> length c3 = 5000 \<and>
      (\<exists>r1 r2 r3 r4 s1 s2 s3.
         events_of (summarize_text ?env ?t ())
           = [Complete (chunk_request c1) (Inr r1),
              Complete (chunk_request c2) (Inr r2),
              Complete (chunk_request c3) (Inr r3),
              Complete (final_request (py_join SEPARATOR [s1, s2, s3])) (Inr r4)] \<and>
         stripped_content r1 = Inr s1 \<and> stripped_content r2 = Inr s2 \<and>
         stripped_content r3 = Inr s3)"
    using scenario_25000_chars [OF h1]
  proof (elim exE conjE)
    fix c1 c2 c3
    assume c: "chunk_text ?t 10000 = Some [c1, c2, c3]"
      "length c1 = 10000" "length c2 = 10000" "length c3 = 5000"
    assume inner: "\<forall>(env :: unit env) w key.
      OPENAI_API_KEY env = Some key \<and> key \<noteq> [] \<and>
      (\<forall>req w. \<exists>c rest w'. chat_completions_create env key req w = (Inr (Some c # rest), w'))
      \<longrightarrow>
      (\<exists>r1 r2 r3 r4 s1 s2 s3.
         events_of (summarize_text env ?t w)
           = [Complete (chunk_request c1) (Inr r1),
              Complete (chunk_request c2) (Inr r2),
              Complete (chunk_request c3) (Inr r3),
              Complete (final_request (py_join SEPARATOR [s1, s2, s3])) (Inr r4)] \<and>
         stripped_content r1 = Inr s1 \<and> stripped_content r2 = Inr s2 \<and>
         stripped_content r3 = Inr s3)"
    note ev = inner [rule_format, of ?env "[107]" "()", OF conjI [OF h2 conjI [OF h3 h4]]]
    show ?thesis
      by (rule exI [of _ c1], rule exI [of _ c2], rule exI [of _ c3]) (intro conjI c ev)
  qed
  with h1 h2 h3 h4 show ?thesis by (intro conjI)
qed



text \<open>
  C6. When the credential is missing (unset or empty), \<open>summarize_text\<close> returns the
  configuration-error message on any text and makes no call at all. A completion call that
  fails makes \<open>summarize_text\<close> raise the exception of that call, which is an outcome of a
  different kind: a raised exception, not a returned message.
\<close>

theorem summarize_text_unconfigured:
  assumes "OPENAI_API_KEY env = None \<or> OPENAI_API_KEY env = Some []"
  shows "summarize_text env text w = (Return MSG_NO_API_KEY, [], w) \<and>
         (\<forall>(env' :: 'w env) text' w' q e.
            Complete q (Inl e) \<in> set (events_of (summarize_text env' text' w')) \<longrightarrow>
            outcome_of (summarize_text env' text' w') = Raise e \<and>
            outcome_of (summarize_text env' text' w') \<noteq> outcome_of (summarize_text env text w))"
proof -
  have "client env = None" using assms by (auto simp: client_def)
  then have a: "summarize_text env text w = (Return MSG_NO_API_KEY, [], w)"
    by (simp add: summarize_text_def ret_apply)
  have "outcome_of (summarize_text env' text' w') = Raise e \<and>
        outcome_of (summarize_text env' text' w') \<noteq> outcome_of (summarize_text env text w)"
    if "Complete q (Inl e) \<in> set (events_of (summarize_text env' text' w'))"
    for env' :: "'w env" and text' w' q e
    using summarize_text_failed_call [OF that] a by (simp add: outcome_of_def)
  with a show ?thesis by blast
qed

theorem summarize_text_unconfigured_witness:
  "(OPENAI_API_KEY (example_env None (Inr []) (Inr [])) = None \<or>
    OPENAI_API_KEY (example_env None (Inr []) (Inr [])) = Some []) \<and>
   summarize_text (example_env None (Inr []) (Inr [])) [104, 105] ()
     = (Return MSG_NO_API_KEY, [], ()) \<and>
   Complete (chunk_request [104, 105]) (Inl (Exception ''APIConnectionError'' []))
     \<in> set (events_of (summarize_text
          (example_env (Some [107]) (Inl (Exception ''APIConnectionError'' [])) (Inr []))
          [104, 105] ())) \<and>
   outcome_of (summarize_text
      (example_env (Some [107]) (Inl (Exception ''APIConnectionError'' [])) (Inr []))
      [104, 105] ()) = Raise (Exception ''APIConnectionError'' []) \<and>
   outcome_of (summarize_text
      (example_env (Some [107]) (Inl (Exception ''APIConnectionError'' [])) (Inr []))
      [104, 105] ())
     \<noteq> outcome_of (summarize_text (example_env None (Inr []) (Inr [])) [104, 105] ())"
proof -
  let ?off = "example_env None (Inr []) (Inr [])"
  let ?e = "Exception ''APIConnectionError'' []"
  let ?down = "example_env (Some [107]) (Inl ?e) (Inr [])"
  have h: "OPENAI_API_KEY ?off = None \<or> OPENAI_API_KEY ?off = Some []"
    by (simp add: example_env_def)
  have chunks: "chunk_text [104, 105] 10000 = Some [[104, 105]]"
    by (simp add: chunk_text_blocks blocks_Cons blocks_Nil)
  have call: "chat_completions_create ?down [107] (chunk_request [104, 105]) () = (Inl ?e, ())"
    by (simp add: example_env_def)
  have "summarize_text ?down [104, 105] = summarize_fragments (chat_completions_create ?down [107]) [[104, 105]]"
    by (rule summarize_text_configured) (simp_all add: example_env_def chunks)
  then have run: "summarize_text ?down [104, 105] ()
      = (Raise ?e, [Complete (chunk_request [104, 105]) (Inl ?e)], ())"
    by (simp add: summarize_fragments_abort
          summarize_chunks_call_fails [where create = "chat_completions_create ?down [107]", OF call])
  have failed: "Complete (chunk_request [104, 105]) (Inl ?e)
      \<in> set (events_of (summarize_text ?down [104, 105] ()))"
    by (simp add: run events_of_def)
  note inst = summarize_text_unconfigured [OF h, of "[104, 105]" "()"]
  note a = inst [THEN conjunct1]
  note b = inst [THEN conjunct2, rule_format, OF failed]
  from h a failed b show ?thesis by (intro conjI) blast+
qed

section \<open>Properties of the Request Handler\<close>

subsection \<open>The calls of a computation\<close>



lemma events_call: "events_of (call f ev w) = [ev (fst (f w))]"
  by (simp add: events_of_def call_def split: prod.splits)




lemma in_events_try_except:
  "ev \<in> set (events_of (try_except body handler w)) \<longleftrightarrow>
     ev \<in> set (events_of (body w)) \<or>
     (\<exists>cls msg evs w'. body w = (Raise (Exception cls msg), evs, w') \<and>
        ev \<in> set (events_of (handler (Exception cls msg) w')))"
  by (cases "body w" rule: prod_cases3; cases "fst (body w)")
     (auto simp: try_except_def events_of_def split: prod.splits outcome.splits exn.splits)












text \<open>An update that delivers no message makes the handler raise before any call.\<close>

lemma handle_document_no_message:
  "message upd = None \<Longrightarrow>
   handle_document env upd w
     = (Raise (Exception ''AttributeError'' (no_attribute (ascii ''document''))), [], w)"
  by (simp add: handle_document_def raise_def)

subsection \<open>The contract of the Request Handler\<close>



text \<open>
  For every update delivering a message that carries no document, or a document whose
  declared media type is not \<open>application/pdf\<close>, the only call \<open>handle_document\<close> makes is
  the reply with the "please send a PDF" message: no Retriever, Extractor or Reducer call.
\<close>

lemma handle_document_not_pdf:
  assumes "message upd = Some msg"
    and "document msg = None \<or>
         (\<exists>doc. document msg = Some doc \<and> mime_type doc \<noteq> Some (ascii ''application/pdf''))"
  shows "events_of (handle_document env upd w)
           = [Reply MSG_ONLY_PDF (fst (reply_text env MSG_ONLY_PDF w))]"
  using assms
  by (auto simp: handle_document_def reply_def events_call)

lemma handle_document_not_pdf_example:
  "message \<lparr>message = Some \<lparr>document = Some
       \<lparr>file_id = [49], mime_type = Some (ascii ''image/png''), file_name = None\<rparr>\<rparr>\<rparr>
     = Some \<lparr>document = Some
       \<lparr>file_id = [49], mime_type = Some (ascii ''image/png''), file_name = None\<rparr>\<rparr> \<and>
   (document \<lparr>document = Some
       \<lparr>file_id = [49], mime_type = Some (ascii ''image/png''), file_name = None\<rparr>\<rparr> = None \<or>
    (\<exists>doc. document \<lparr>document = Some
       \<lparr>file_id = [49], mime_type = Some (ascii ''image/png''), file_name = None\<rparr>\<rparr> = Some doc \<and>
       mime_type doc \<noteq> Some (ascii ''application/pdf''))) \<and>
   events_of (handle_document (example_env None (Inr []) (Inr []))
      \<lparr>message = Some \<lparr>document = Some
         \<lparr>file_id = [49], mime_type = Some (ascii ''image/png''), file_name = None\<rparr>\<rparr>\<rparr> ())
     = [Reply MSG_ONLY_PDF (Inr ())] \<and>
   events_of (handle_document (example_env None (Inr []) (Inr []))
      \<lparr>message = Some \<lparr>document = None\<rparr>\<rparr> ())
     = [Reply MSG_ONLY_PDF (Inr ())]"
proof -
  let ?env = "example_env None (Inr []) (Inr [])"
  let ?msg = "\<lparr>document = Some
       \<lparr>file_id = [49], mime_type = Some (ascii ''image/png''), file_name = None\<rparr>\<rparr>"
  have h1: "message \<lparr>message = Some ?msg\<rparr> = Some ?msg" by simp
  have h2: "document ?msg = None \<or>
    (\<exists>doc. document ?msg = Some doc \<and> mime_type doc \<noteq> Some (ascii ''application/pdf''))"
    by (simp add: ascii_def)
  have g1: "message \<lparr>message = Some \<lparr>document = None\<rparr>\<rparr> = Some \<lparr>document = None\<rparr>" by simp
  have g2: "document \<lparr>document = None\<rparr> = None \<or>
    (\<exists>doc. document \<lparr>document = None\<rparr> = Some doc \<and>
       mime_type doc \<noteq> Some (ascii ''application/pdf''))"
    by simp
  have r: "fst (reply_text ?env MSG_ONLY_PDF ()) = Inr ()" by (simp add: example_env_def)
  from handle_document_not_pdf [OF h1 h2, of ?env "()"]
       handle_document_not_pdf [OF g1 g2, of ?env "()"] h1 h2 r
  show ?thesis by simp
qed

text \<open>
  C8. The handler is meant to answer every inbound event that is not a PDF upload with the
  "please send a PDF" message and to do nothing else. It does so when the update delivers a
  message (\<open>handle_document_not_pdf\<close>). It does not when \<open>update.message\<close> is \<open>None\<close>, as
  for an edited message or a channel post, whose document the handler never looks at:
  \<open>message.document\<close> then raises \<open>AttributeError\<close> outside the \<open>try\<close>, so the exception
  leaves the handler and no reply is sent, in every environment and every world. The
  guard \<open>not document\<close> covers a missing document but not a missing message.
\<close>

theorem handle_document_no_message_no_reply:
  "handle_document env \<lparr>message = None\<rparr> w
     = (Raise (Exception ''AttributeError'' (no_attribute (ascii ''document''))), [], w) \<and>
   events_of (handle_document env \<lparr>message = None\<rparr> w) = [] \<and>
   events_of (handle_document env \<lparr>message = None\<rparr> w)
     \<noteq> [Reply MSG_ONLY_PDF (fst (reply_text env MSG_ONLY_PDF w))]"
  by (simp add: handle_document_no_message events_of_def)

end
